theory Spec2Isabelle
  imports Main "HOL-Library.Sublist"
begin

section \<open>Library.py: a book catalogue persisted to books.json\<close>

subsection \<open>Strings\<close>

text \<open>
  A Python \<open>str\<close> is a sequence of Unicode code points, so it is modelled as a list of
  natural numbers (the code points). The status literals of the program are Cyrillic;
  they are written out code point by code point.
\<close>

type_synonym pystr = "nat list"

definition ascii :: "string \<Rightarrow> pystr" where
  "ascii s = map of_char s"

text \<open>\<open>str(n)\<close> for an integer: decimal digits, with a leading minus sign when negative.\<close>

fun digits :: "nat \<Rightarrow> pystr" where
  "digits n = (if n < 10 then [48 + n] else digits (n div 10) @ [48 + n mod 10])"

declare digits.simps [simp del]

definition str_int :: "int \<Rightarrow> pystr" where
  "str_int i = (if i < 0 then 45 # digits (nat (- i)) else digits (nat i))"

text \<open>\<open>sub in s\<close> on strings: \<open>sub\<close> occurs in \<open>s\<close> as a contiguous piece.\<close>

fun str_in :: "pystr \<Rightarrow> pystr \<Rightarrow> bool" where
  "str_in sub [] = (sub = [])"
| "str_in sub (c # cs) = (prefix sub (c # cs) \<or> str_in sub cs)"

subsection \<open>Books and the store\<close>

text \<open>
  A book is the dictionary \<open>Book.__dict__\<close> with the keys id, title, author, year and
  status. The file books.json is modelled by the value \<open>json.load\<close> reads from it:
  \<open>None\<close> when the file does not exist, \<open>Some books\<close> when it holds the list \<open>books\<close>.
\<close>

record book =
  book_id :: int
  title :: pystr
  author :: pystr
  year :: int
  status :: pystr

type_synonym store = "book list option"

text \<open>Every \<open>print\<close> of the program, with the values it interpolates.\<close>

datatype msg =
    Welcome
  | Menu
  | Added pystr
  | NotFound int
  | Deleted int
  | BookInfo book
  | BooksNotFound
  | ListHeader
  | EmptyLibrary
  | StatusUpdated int pystr
  | StatusError
  | InvalidId
  | InvalidNumericId
  | Goodbye
  | UnknownAction

datatype exn = ValueError | EOFError

text \<open>
  The default of the parameter \<open>status\<close> of \<open>Book.__init__\<close>: the Russian for "in stock",
  written with a capital first letter (code point 1042, CYRILLIC CAPITAL LETTER VE).
\<close>

definition default_status :: pystr where
  "default_status = [1042, 32, 1085, 1072, 1083, 1080, 1095, 1080, 1080]"

text \<open>
  The list that \<open>update_status\<close> tests the new status against: "in stock", all in small
  letters (first code point 1074, CYRILLIC SMALL LETTER VE), and "checked out".
\<close>

definition allowed_statuses :: "pystr list" where
  "allowed_statuses =
     [[1074, 32, 1085, 1072, 1083, 1080, 1095, 1080, 1080],
      [1074, 1099, 1076, 1072, 1085, 1072]]"

definition load_books :: "store \<Rightarrow> book list" where
  "load_books fs = (case fs of None \<Rightarrow> [] | Some books \<Rightarrow> books)"

definition save_books :: "book list \<Rightarrow> store \<Rightarrow> store" where
  "save_books books fs = Some books"

text \<open>\<open>max(book['id'] for book in books)\<close> keeps the largest id seen so far.\<close>

definition get_next_id :: "store \<Rightarrow> int" where
  "get_next_id fs =
     (case fs of
        None \<Rightarrow> 1
      | Some books \<Rightarrow>
          (case books of
             [] \<Rightarrow> 1
           | b # bs \<Rightarrow> foldl max (book_id b) (map book_id bs) + 1))"

definition Book :: "pystr \<Rightarrow> pystr \<Rightarrow> int \<Rightarrow> pystr \<Rightarrow> store \<Rightarrow> book" where
  "Book t a y s fs =
     \<lparr>book_id = get_next_id fs, title = t, author = a, year = y, status = s\<rparr>"

subsection \<open>The catalogue operations\<close>

text \<open>Each operation takes the store and returns the store it leaves and what it printed.\<close>

definition add_book :: "pystr \<Rightarrow> pystr \<Rightarrow> int \<Rightarrow> store \<Rightarrow> store \<times> msg list" where
  "add_book t a y fs =
     (let books = load_books fs;
          new_book = Book t a y default_status fs
      in (save_books (books @ [new_book]) fs, [Added t]))"

definition delete_book :: "int \<Rightarrow> store \<Rightarrow> store \<times> msg list" where
  "delete_book bid fs =
     (let books = load_books fs;
          update_books = filter (\<lambda>book. book_id book \<noteq> bid) books
      in if length update_books = length books then (fs, [NotFound bid])
         else (save_books update_books fs, [Deleted bid]))"

text \<open>
  \<open>query.lower()\<close> is the library's Unicode lower-casing; \<open>search_book\<close> takes it as the
  parameter \<open>lower\<close>.
\<close>

definition search_book :: "(pystr \<Rightarrow> pystr) \<Rightarrow> pystr \<Rightarrow> store \<Rightarrow> msg list" where
  "search_book lower query fs =
     (let books = load_books fs;
          results = filter (\<lambda>book.
             str_in (lower query) (lower (title book)) \<or>
             str_in (lower query) (lower (author book)) \<or>
             query = str_int (year book)) books
      in if results \<noteq> [] then map BookInfo results else [BooksNotFound])"

definition display_books :: "store \<Rightarrow> msg list" where
  "display_books fs =
     (let books = load_books fs
      in if books \<noteq> [] then ListHeader # map BookInfo books else [EmptyLibrary])"

text \<open>
  The loop of \<open>update_status\<close> stops at the first book with the id: \<open>seen\<close> are the books
  already passed, in order.
\<close>

fun update_status_loop ::
  "int \<Rightarrow> pystr \<Rightarrow> store \<Rightarrow> book list \<Rightarrow> book list \<Rightarrow> store \<times> msg list" where
  "update_status_loop bid new_status fs seen [] = (fs, [NotFound bid])"
| "update_status_loop bid new_status fs seen (book # rest) =
     (if book_id book = bid then
        (if new_status \<in> set allowed_statuses then
           (save_books (seen @ book\<lparr>status := new_status\<rparr> # rest) fs,
            [StatusUpdated bid new_status])
         else (fs, [StatusError]))
      else update_status_loop bid new_status fs (seen @ [book]) rest)"

definition update_status :: "int \<Rightarrow> pystr \<Rightarrow> store \<Rightarrow> store \<times> msg list" where
  "update_status bid new_status fs = update_status_loop bid new_status fs [] (load_books fs)"

subsection \<open>The menu loop\<close>

text \<open>
  \<open>main\<close> reads lines with \<open>input\<close>: the lines still to come are a list, and reading past
  its end raises EOFError. \<open>int(...)\<close> is the parameter \<open>to_int\<close>, \<open>None\<close> where it raises
  ValueError. The result is how the loop ended (\<open>Inr ()\<close> for the exit action, \<open>Inl\<close> for
  an exception that left \<open>main\<close>), the store and everything printed.
\<close>

fun main_loop ::
  "(pystr \<Rightarrow> pystr) \<Rightarrow> (pystr \<Rightarrow> int option) \<Rightarrow> store \<Rightarrow> msg list \<Rightarrow> pystr list
     \<Rightarrow> (exn + unit) \<times> store \<times> msg list" where
  "main_loop lower to_int fs out [] = (Inl EOFError, fs, out @ [Menu])"
| "main_loop lower to_int fs out (choice # ins) =
     (if choice = ascii ''1'' then
        (case ins of
           t # a # y # ins' \<Rightarrow>
             (case to_int y of
                None \<Rightarrow> (Inl ValueError, fs, out @ [Menu])
              | Some n \<Rightarrow>
                  main_loop lower to_int (fst (add_book t a n fs))
                    (out @ Menu # snd (add_book t a n fs)) ins')
         | _ \<Rightarrow> (Inl EOFError, fs, out @ [Menu]))
      else if choice = ascii ''2'' then
        (case ins of
           [] \<Rightarrow> (Inl EOFError, fs, out @ [Menu])
         | s # ins' \<Rightarrow>
             (case to_int s of
                None \<Rightarrow> main_loop lower to_int fs (out @ [Menu, InvalidId]) ins'
              | Some n \<Rightarrow>
                  main_loop lower to_int (fst (delete_book n fs))
                    (out @ Menu # snd (delete_book n fs)) ins'))
      else if choice = ascii ''3'' then
        (case ins of
           [] \<Rightarrow> (Inl EOFError, fs, out @ [Menu])
         | q # ins' \<Rightarrow>
             main_loop lower to_int fs (out @ Menu # search_book lower q fs) ins')
      else if choice = ascii ''4'' then
        main_loop lower to_int fs (out @ Menu # display_books fs) ins
      else if choice = ascii ''5'' then
        (case ins of
           [] \<Rightarrow> (Inl EOFError, fs, out @ [Menu])
         | s # ins' \<Rightarrow>
             (case to_int s of
                None \<Rightarrow> main_loop lower to_int fs (out @ [Menu, InvalidNumericId]) ins'
              | Some n \<Rightarrow>
                  (case ins' of
                     [] \<Rightarrow> (Inl EOFError, fs, out @ [Menu])
                   | st # ins'' \<Rightarrow>
                       main_loop lower to_int (fst (update_status n st fs))
                         (out @ Menu # snd (update_status n st fs)) ins'')))
      else if choice = ascii ''6'' then (Inr (), fs, out @ [Menu, Goodbye])
      else main_loop lower to_int fs (out @ [Menu, UnknownAction]) ins)"

definition main :: "(pystr \<Rightarrow> pystr) \<Rightarrow> (pystr \<Rightarrow> int option) \<Rightarrow> store \<Rightarrow> pystr list
     \<Rightarrow> (exn + unit) \<times> store \<times> msg list" where
  "main lower to_int fs ins = main_loop lower to_int fs [Welcome] ins"

subsection \<open>Library functions on ASCII text\<close>

text \<open>
  Instances of the two parameters for concrete runs. \<open>ascii_lower\<close> is \<open>str.lower\<close> on
  strings of ASCII characters. \<open>ascii_int\<close> is \<open>int\<close> on strings made of an optional
  sign and ASCII decimal digits, and on ASCII strings holding a character that is no
  digit, sign, underscore or white space (where \<open>int\<close> raises ValueError).
\<close>

definition ascii_lower :: "pystr \<Rightarrow> pystr" where
  "ascii_lower s = map (\<lambda>c. if 65 \<le> c \<and> c \<le> 90 then c + 32 else c) s"

definition digits_value :: "pystr \<Rightarrow> int option" where
  "digits_value ds =
     (if ds \<noteq> [] \<and> list_all (\<lambda>c. 48 \<le> c \<and> c \<le> 57) ds
      then Some (foldl (\<lambda>v c. 10 * v + int (c - 48)) 0 ds) else None)"

definition ascii_int :: "pystr \<Rightarrow> int option" where
  "ascii_int s =
     (case s of
        [] \<Rightarrow> None
      | c # cs \<Rightarrow>
          if c = 45 then map_option uminus (digits_value cs)
          else if c = 43 then digits_value cs
          else digits_value s)"

subsection \<open>Sessions\<close>

text \<open>
  A run of add operations only: the store it leaves, and the ids the new books get
  (the id of the book \<open>add_book\<close> appends is \<open>get_next_id\<close> of the store it starts from).
\<close>

fun add_all :: "(pystr \<times> pystr \<times> int) list \<Rightarrow> store \<Rightarrow> store" where
  "add_all [] fs = fs"
| "add_all ((t, a, y) # xs) fs = add_all xs (fst (add_book t a y fs))"

fun assigned_ids :: "(pystr \<times> pystr \<times> int) list \<Rightarrow> store \<Rightarrow> int list" where
  "assigned_ids [] fs = []"
| "assigned_ids ((t, a, y) # xs) fs =
     book_id (Book t a y default_status fs) # assigned_ids xs (fst (add_book t a y fs))"

text \<open>
  A session of add and delete operations on one store: the store it leaves, and its
  trace, which records each id an add assigns and each id a delete removes.
\<close>

datatype op = Add pystr pystr int | Delete int

datatype event = Assigned int | Removed int

fun run_op :: "op \<Rightarrow> store \<Rightarrow> store" where
  "run_op (Add t a y) fs = fst (add_book t a y fs)"
| "run_op (Delete bid) fs = fst (delete_book bid fs)"

fun run :: "op list \<Rightarrow> store \<Rightarrow> store" where
  "run [] fs = fs"
| "run (x # xs) fs = run xs (run_op x fs)"

fun trace_op :: "op \<Rightarrow> store \<Rightarrow> event list" where
  "trace_op (Add t a y) fs = [Assigned (book_id (Book t a y default_status fs))]"
| "trace_op (Delete bid) fs =
     (if snd (delete_book bid fs) = [Deleted bid] then [Removed bid] else [])"

fun trace :: "op list \<Rightarrow> store \<Rightarrow> event list" where
  "trace [] fs = []"
| "trace (x # xs) fs = trace_op x fs @ trace xs (run_op x fs)"

subsection \<open>Sample data\<close>

text \<open>A store of two books, for the concrete runs below.\<close>

definition book_orwell :: book where
  "book_orwell = \<lparr>book_id = 1, title = ascii ''1984'', author = ascii ''Orwell'',
     year = 1949, status = default_status\<rparr>"

definition book_gibson :: book where
  "book_gibson = \<lparr>book_id = 2, title = ascii ''Neuromancer'', author = ascii ''Gibson'',
     year = 1984, status = default_status\<rparr>"

definition sample_store :: store where
  "sample_store = Some [book_orwell, book_gibson]"

section \<open>Properties\<close>

subsection \<open>Helper facts\<close>

lemma filter_keeps_all:
  "bid \<notin> book_id ` set books \<Longrightarrow> filter (\<lambda>book. book_id book \<noteq> bid) books = books"
  by (induction books) auto

lemma update_status_loop_rejected:
  "new_status \<notin> set allowed_statuses \<Longrightarrow>
   update_status_loop bid new_status fs seen rest =
     (fs, if bid \<in> book_id ` set rest then [StatusError] else [NotFound bid])"
  by (induction rest arbitrary: seen) auto

lemma default_status_not_allowed: "default_status \<notin> set allowed_statuses"
  by (simp add: default_status_def allowed_statuses_def)

lemma update_status_loop_accepted:
  "bid \<in> book_id ` set rest \<Longrightarrow> new_status \<in> set allowed_statuses \<Longrightarrow>
   \<exists>i < length rest.
     book_id (rest ! i) = bid \<and> (\<forall>j < i. book_id (rest ! j) \<noteq> bid) \<and>
     update_status_loop bid new_status fs seen rest =
       (Some (seen @ rest[i := (rest ! i)\<lparr>status := new_status\<rparr>]),
        [StatusUpdated bid new_status])"
proof (induction rest arbitrary: seen)
  case Nil
  then show ?case by simp
next
  case (Cons b rest)
  show ?case
  proof (cases "book_id b = bid")
    case True
    with Cons.prems have
      "book_id ((b # rest) ! 0) = bid \<and> (\<forall>j < (0::nat). book_id ((b # rest) ! j) \<noteq> bid) \<and>
       update_status_loop bid new_status fs seen (b # rest) =
         (Some (seen @ (b # rest)[0 := ((b # rest) ! 0)\<lparr>status := new_status\<rparr>]),
          [StatusUpdated bid new_status])"
      by (simp add: save_books_def)
    then show ?thesis by blast
  next
    case False
    with Cons.prems have "bid \<in> book_id ` set rest" by auto
    from Cons.IH [OF this Cons.prems(2), of "seen @ [b]"]
    obtain i where i: "i < length rest" "book_id (rest ! i) = bid"
      "\<forall>j < i. book_id (rest ! j) \<noteq> bid"
      "update_status_loop bid new_status fs (seen @ [b]) rest =
         (Some ((seen @ [b]) @ rest[i := (rest ! i)\<lparr>status := new_status\<rparr>]),
          [StatusUpdated bid new_status])"
      by blast
    have "\<forall>j < Suc i. book_id ((b # rest) ! j) \<noteq> bid"
      using False i(3) by (auto simp: less_Suc_eq_0_disj)
    with i False have
      "Suc i < length (b # rest) \<and> book_id ((b # rest) ! Suc i) = bid \<and>
       (\<forall>j < Suc i. book_id ((b # rest) ! j) \<noteq> bid) \<and>
       update_status_loop bid new_status fs seen (b # rest) =
         (Some (seen @ (b # rest)[Suc i := ((b # rest) ! Suc i)\<lparr>status := new_status\<rparr>]),
          [StatusUpdated bid new_status])"
      by simp
    then show ?thesis by blast
  qed
qed

text \<open>The test \<open>sub in s\<close> finds exactly the contiguous occurrences.\<close>

lemma str_in_sublist: "str_in sub s \<longleftrightarrow> sublist sub s"
  by (induction s) (auto simp: sublist_Cons_right)

text \<open>\<open>str\<close> on integers is injective: the digits give the number back.\<close>

lemma digits_not_Nil: "digits n \<noteq> []"
  by (subst digits.simps) simp

lemma digits_range: "c \<in> set (digits n) \<Longrightarrow> 48 \<le> c"
  by (induction n arbitrary: c rule: digits.induct) (subst (asm) digits.simps, auto split: if_splits)

lemma digits_decode: "foldl (\<lambda>v c. 10 * v + (c - 48)) 0 (digits n) = n"
proof (induction n rule: digits.induct)
  case (1 n)
  show ?case
  proof (cases "n < 10")
    case True
    then show ?thesis by (subst digits.simps) simp
  next
    case False
    with 1 show ?thesis by (subst digits.simps) simp
  qed
qed

lemma digits_inj: "digits m = digits n \<Longrightarrow> m = n"
  by (metis digits_decode)

lemma digits_no_minus: "digits n \<noteq> 45 # cs"
proof
  assume "digits n = 45 # cs"
  then have "45 \<in> set (digits n)" by simp
  from digits_range [OF this] show False by simp
qed

lemma str_int_inj: "str_int i = str_int j \<Longrightarrow> i = j"
  using digits_no_minus [of "nat i"] digits_no_minus [of "nat j"]
  by (auto simp: str_int_def split: if_splits dest!: digits_inj) metis+

text \<open>The next id is above every id of the store, so each add raises it.\<close>

lemma foldl_max_ge: "x \<le> foldl max x xs \<and> (\<forall>y \<in> set xs. y \<le> foldl max x xs)" for x :: int
proof (induction xs arbitrary: x)
  case Nil
  then show ?case by simp
next
  case (Cons z zs)
  from Cons.IH [of "max x z"] show ?case by auto
qed

lemma get_next_id_greater: "b \<in> set (load_books fs) \<Longrightarrow> book_id b < get_next_id fs"
proof (cases fs)
  case None
  assume "b \<in> set (load_books fs)"
  with None show ?thesis by (simp add: load_books_def)
next
  case (Some books)
  assume b: "b \<in> set (load_books fs)"
  show ?thesis
  proof (cases books)
    case Nil
    with Some b show ?thesis by (simp add: load_books_def)
  next
    case (Cons c cs)
    with Some b have "b = c \<or> b \<in> set cs" by (simp add: load_books_def)
    then have "book_id b \<le> foldl max (book_id c) (map book_id cs)"
      using foldl_max_ge [of "book_id c" "map book_id cs"] by auto
    with Some Cons show ?thesis by (simp add: get_next_id_def)
  qed
qed

lemma load_books_add_book:
  "load_books (fst (add_book t a y fs)) = load_books fs @ [Book t a y default_status fs]"
  by (simp add: add_book_def Let_def save_books_def load_books_def)

lemma book_id_Book: "book_id (Book t a y s fs) = get_next_id fs"
  by (simp add: Book_def)

lemma get_next_id_add_book: "get_next_id fs < get_next_id (fst (add_book t a y fs))"
  using get_next_id_greater [of "Book t a y default_status fs" "fst (add_book t a y fs)"]
  by (simp add: load_books_add_book book_id_Book)

lemma assigned_ids_lower_bound:
  "n \<in> set (assigned_ids args fs) \<Longrightarrow> get_next_id fs \<le> n"
proof (induction args fs arbitrary: n rule: assigned_ids.induct)
  case (1 fs)
  then show ?case by simp
next
  case (2 t a y xs fs)
  from "2.prems" consider "n = get_next_id fs"
    | "n \<in> set (assigned_ids xs (fst (add_book t a y fs)))"
    by (auto simp: book_id_Book)
  then show ?case
  proof cases
    case 1
    then show ?thesis by simp
  next
    case 2
    from "2.IH" [OF this] get_next_id_add_book [of fs t a y] show ?thesis by simp
  qed
qed

lemma assigned_ids_increasing: "sorted_wrt (<) (assigned_ids args fs)"
proof (induction args fs rule: assigned_ids.induct)
  case (1 fs)
  then show ?case by simp
next
  case (2 t a y xs fs)
  have "\<forall>n \<in> set (assigned_ids xs (fst (add_book t a y fs))). get_next_id fs < n"
    using assigned_ids_lower_bound get_next_id_add_book [of fs t a y] by fastforce
  with "2.IH" show ?case by (simp add: book_id_Book)
qed

lemma ids_after_add_all:
  "map book_id (load_books (add_all args fs)) =
     map book_id (load_books fs) @ assigned_ids args fs"
  by (induction args fs rule: add_all.induct) (simp_all add: load_books_add_book)

text \<open>A session run in two parts.\<close>

lemma run_append: "run (xs @ ys) fs = run ys (run xs fs)"
  by (induction xs arbitrary: fs) simp_all

lemma trace_append: "trace (xs @ ys) fs = trace xs fs @ trace ys (run xs fs)"
  by (induction xs arbitrary: fs) simp_all


lemma sorted_wrt_less_distinct: "sorted_wrt (<) xs \<Longrightarrow> distinct xs" for xs :: "int list"
  by (induction xs) auto


subsection \<open>The menu loop\<close>

text \<open>
  C2 (fails on the code). In the add action, \<open>int(input(...))\<close> for the year is not inside
  a \<open>try\<close>: whenever the year line does not parse as an integer, the ValueError leaves
  \<open>main\<close>. The session ends there with the store untouched, nothing is reported, and the
  lines that follow are never read. The delete and update-status actions catch the same
  error and continue.
\<close>

theorem add_year_not_integer_crashes:
  "to_int y = None \<Longrightarrow>
   main lower to_int fs (ascii ''1'' # t # a # y # rest) = (Inl ValueError, fs, [Welcome, Menu])"
  by (simp add: main_def)

theorem add_year_not_integer_crashes_witness:
  "ascii_int (ascii ''abc'') = None
   \<and> main ascii_lower ascii_int None
        [ascii ''1'', ascii ''Dune'', ascii ''Herbert'', ascii ''abc'', ascii ''4'', ascii ''6'']
      = (Inl ValueError, None, [Welcome, Menu])"
  using add_year_not_integer_crashes [of ascii_int "ascii ''abc''" ascii_lower None
      "ascii ''Dune''" "ascii ''Herbert''" "[ascii ''4'', ascii ''6'']"]
  by (simp add: ascii_int_def digits_value_def ascii_def)

subsection \<open>Update-status\<close>

text \<open>
  C4 (as amended). A status outside the two allowed values never causes a write: the
  store is returned as it was. The validation error is printed when a book with the id
  exists; when none does, the not-found message is printed instead, because the id is
  looked up before the status is checked.
\<close>

theorem update_status_invalid_no_write:
  "new_status \<notin> set allowed_statuses \<Longrightarrow>
   update_status bid new_status fs =
     (fs, if bid \<in> book_id ` set (load_books fs) then [StatusError] else [NotFound bid])"
  by (simp add: update_status_def update_status_loop_rejected)

theorem update_status_invalid_no_write_witness:
  "ascii ''lost'' \<notin> set allowed_statuses
   \<and> update_status 1 (ascii ''lost'')
        (Some [\<lparr>book_id = 1, title = ascii ''Dune'', author = ascii ''Herbert'',
                year = 1965, status = default_status\<rparr>])
      = (Some [\<lparr>book_id = 1, title = ascii ''Dune'', author = ascii ''Herbert'',
                year = 1965, status = default_status\<rparr>], [StatusError])"
  using update_status_invalid_no_write [of "ascii ''lost''" 1
      "Some [\<lparr>book_id = 1, title = ascii ''Dune'', author = ascii ''Herbert'',
              year = 1965, status = default_status\<rparr>]"]
  by (simp add: allowed_statuses_def ascii_def load_books_def)

text \<open>
  C4 as stated asks for a validation error for every id. With an empty store and the
  status "lost", what is printed is the not-found message.
\<close>

theorem update_status_invalid_counterexample:
  "ascii ''lost'' \<notin> set allowed_statuses
   \<and> snd (update_status 1 (ascii ''lost'') None) \<noteq> [StatusError]"
  by (simp add: update_status_def load_books_def allowed_statuses_def ascii_def)

subsection \<open>Delete\<close>

text \<open>
  C6. Deleting an id that no book of the store has prints the not-found message and
  returns the store exactly as it was (no call of \<open>save_books\<close>): a missing file stays
  missing, an existing one keeps its content.
\<close>

theorem delete_book_missing_id_no_write:
  "bid \<notin> book_id ` set (load_books fs) \<Longrightarrow> delete_book bid fs = (fs, [NotFound bid])"
  by (simp add: delete_book_def Let_def filter_keeps_all)

theorem delete_book_missing_id_no_write_witness:
  "(7::int) \<notin> book_id ` set (load_books (Some [\<lparr>book_id = 1, title = ascii ''Dune'',
       author = ascii ''Herbert'', year = 1965, status = default_status\<rparr>]))
   \<and> delete_book 7 (Some [\<lparr>book_id = 1, title = ascii ''Dune'',
       author = ascii ''Herbert'', year = 1965, status = default_status\<rparr>])
     = (Some [\<lparr>book_id = 1, title = ascii ''Dune'',
       author = ascii ''Herbert'', year = 1965, status = default_status\<rparr>], [NotFound 7])"
  using delete_book_missing_id_no_write [of 7 "Some [\<lparr>book_id = 1, title = ascii ''Dune'',
       author = ascii ''Herbert'', year = 1965, status = default_status\<rparr>]"]
  by (simp add: load_books_def)

subsection \<open>The record store\<close>



subsection \<open>The initial status\<close>

text \<open>
  C10. The book that \<open>add_book\<close> appends has the default status, whose first letter
  is a capital. That string is not in the list update-status accepts, and update-status called
  with it never writes; so it differs from every status update-status can set.
\<close>

theorem initial_status_not_accepted:
  "status (last (load_books (fst (add_book t a y fs)))) = default_status
   \<and> default_status \<notin> set allowed_statuses
   \<and> fst (update_status bid default_status fs') = fs'"
  by (simp add: add_book_def Let_def save_books_def load_books_def Book_def
      default_status_not_allowed update_status_def update_status_loop_rejected)

subsection \<open>The frame of update-status\<close>

text \<open>
  C5. When a book with the id is in the store and the new status is one of the two
  allowed values, update-status prints the success message and saves a collection that
  differs from the loaded one at a single position \<open>i\<close>, the first book with the id: the
  collection has the same length, every book at another position is the same, and the
  book at \<open>i\<close> is the old one with only its status replaced (id, title, author and year
  are those of the old book).
\<close>

theorem update_status_changes_only_status:
  assumes "bid \<in> book_id ` set (load_books fs)" and "new_status \<in> set allowed_statuses"
  shows "\<exists>i < length (load_books fs).
     book_id (load_books fs ! i) = bid \<and>
     (\<forall>j < i. book_id (load_books fs ! j) \<noteq> bid) \<and>
     snd (update_status bid new_status fs) = [StatusUpdated bid new_status] \<and>
     length (load_books (fst (update_status bid new_status fs))) = length (load_books fs) \<and>
     (\<forall>j < length (load_books fs). j \<noteq> i \<longrightarrow>
        load_books (fst (update_status bid new_status fs)) ! j = load_books fs ! j) \<and>
     load_books (fst (update_status bid new_status fs)) ! i =
       (load_books fs ! i)\<lparr>status := new_status\<rparr>"
proof -
  from update_status_loop_accepted [OF assms, of fs "[]"]
  obtain i where i: "i < length (load_books fs)" "book_id (load_books fs ! i) = bid"
    "\<forall>j < i. book_id (load_books fs ! j) \<noteq> bid"
    "update_status bid new_status fs =
       (Some ((load_books fs)[i := (load_books fs ! i)\<lparr>status := new_status\<rparr>]),
        [StatusUpdated bid new_status])"
    by (auto simp: update_status_def)
  have "load_books (fst (update_status bid new_status fs)) =
          (load_books fs)[i := (load_books fs ! i)\<lparr>status := new_status\<rparr>]"
    by (simp add: i(4) load_books_def)
  with i show ?thesis by auto
qed

theorem update_status_changes_only_status_witness:
  "2 \<in> book_id ` set (load_books sample_store)
   \<and> allowed_statuses ! 1 \<in> set allowed_statuses
   \<and> update_status 2 (allowed_statuses ! 1) sample_store =
       (Some [book_orwell, book_gibson\<lparr>status := allowed_statuses ! 1\<rparr>],
        [StatusUpdated 2 (allowed_statuses ! 1)])
   \<and> (\<exists>i < length (load_books sample_store).
        load_books (fst (update_status 2 (allowed_statuses ! 1) sample_store)) ! i =
          (load_books sample_store ! i)\<lparr>status := allowed_statuses ! 1\<rparr>)"
proof -
  have h1: "2 \<in> book_id ` set (load_books sample_store)"
    by (simp add: sample_store_def load_books_def book_orwell_def book_gibson_def)
  have h2: "allowed_statuses ! 1 \<in> set allowed_statuses"
    by (simp add: allowed_statuses_def)
  have run: "update_status 2 (allowed_statuses ! 1) sample_store =
       (Some [book_orwell, book_gibson\<lparr>status := allowed_statuses ! 1\<rparr>],
        [StatusUpdated 2 (allowed_statuses ! 1)])"
    by (simp add: update_status_def sample_store_def load_books_def save_books_def
        book_orwell_def book_gibson_def allowed_statuses_def)
  from update_status_changes_only_status [OF h1 h2] h1 h2 run show ?thesis
    by blast
qed

subsection \<open>Search\<close>

text \<open>
  C8. The search prints exactly the books of the store for which the lower-cased query
  occurs as a contiguous piece (\<open>sublist\<close>) of the lower-cased title or of the lower-cased
  author, or for which the query is the decimal string of the year; they come in the
  order of the store. When no book matches, the result is the single message that no
  books were found; the function is total, so no error is raised.
\<close>

theorem search_book_spec:
  "search_book lower query fs =
     (let results = filter (\<lambda>book.
            sublist (lower query) (lower (title book)) \<or>
            sublist (lower query) (lower (author book)) \<or>
            query = str_int (year book)) (load_books fs)
      in if results = [] then [BooksNotFound] else map BookInfo results)"
  by (simp add: search_book_def Let_def str_in_sublist)

text \<open>
  C3 (as amended). When the query is the decimal string of a year that some book of the
  store has, the search prints, in store order, exactly the books that have this year
  or whose lower-cased title or author contains the lower-cased query: every book of
  that year is printed, and so is every book in which the digits occur in the title or
  the author.
\<close>

theorem search_by_year:
  assumes "y \<in> year ` set (load_books fs)"
  shows "search_book lower (str_int y) fs =
     map BookInfo (filter (\<lambda>book.
        year book = y \<or>
        sublist (lower (str_int y)) (lower (title book)) \<or>
        sublist (lower (str_int y)) (lower (author book))) (load_books fs))"
proof -
  have eq: "(str_int y = str_int (year b)) = (year b = y)" for b :: book
    using str_int_inj by auto
  from assms obtain b where "b \<in> set (load_books fs)" "year b = y" by auto
  then have "filter (\<lambda>book.
        str_in (lower (str_int y)) (lower (title book)) \<or>
        str_in (lower (str_int y)) (lower (author book)) \<or>
        str_int y = str_int (year book)) (load_books fs) \<noteq> []"
    by (auto simp: filter_empty_conv)
  then show ?thesis
    by (simp add: search_book_def Let_def str_in_sublist eq disj_comms)
qed

theorem search_by_year_witness:
  "1984 \<in> year ` set (load_books sample_store)
   \<and> search_book ascii_lower (str_int 1984) sample_store =
       [BookInfo book_orwell, BookInfo book_gibson]"
proof -
  have h: "1984 \<in> year ` set (load_books sample_store)"
    by (simp add: sample_store_def load_books_def book_orwell_def book_gibson_def)
  have s: "str_int 1984 = ascii ''1984''" by code_simp
  from search_by_year [OF h, of ascii_lower] h show ?thesis
    by (simp add: s sample_store_def load_books_def book_orwell_def book_gibson_def
        ascii_lower_def ascii_def)
qed


text \<open>
  C3 as stated excludes books matched only through another field. In the sample store
  the query "1984" also prints the book of 1949 whose title is "1984".
\<close>

theorem search_by_year_counterexample:
  "1984 \<in> year ` set (load_books sample_store)
   \<and> search_book ascii_lower (str_int 1984) sample_store =
       [BookInfo book_orwell, BookInfo book_gibson]
   \<and> year book_orwell \<noteq> 1984"
proof -
  have s: "str_int 1984 = ascii ''1984''" by code_simp
  show ?thesis
    by (simp add: s search_book_def sample_store_def load_books_def book_orwell_def
        book_gibson_def ascii_lower_def ascii_def)
qed

subsection \<open>Identifiers\<close>

text \<open>
  C7. For every run of add operations from any store, the ids given to the new books
  are strictly increasing in the order of addition; the ids of the store afterwards are
  the old ones followed by the new ones; every new id is above every id the store had;
  and if the ids of the store were pairwise different before, they are so afterwards.
\<close>

theorem add_all_ids_increasing_unique:
  "sorted_wrt (<) (assigned_ids args fs)
   \<and> map book_id (load_books (add_all args fs)) =
       map book_id (load_books fs) @ assigned_ids args fs
   \<and> (\<forall>b \<in> set (load_books fs). \<forall>n \<in> set (assigned_ids args fs). book_id b < n)
   \<and> (distinct (map book_id (load_books fs))
        \<longrightarrow> distinct (map book_id (load_books (add_all args fs))))"
proof -
  have fresh: "\<forall>b \<in> set (load_books fs). \<forall>n \<in> set (assigned_ids args fs). book_id b < n"
    using get_next_id_greater assigned_ids_lower_bound by fastforce
  have "distinct (map book_id (load_books fs) @ assigned_ids args fs)"
    if "distinct (map book_id (load_books fs))"
    using that fresh sorted_wrt_less_distinct [OF assigned_ids_increasing [of args fs]]
    by fastforce
  with fresh show ?thesis
    by (simp add: assigned_ids_increasing ids_after_add_all)
qed

theorem add_all_ids_increasing_unique_witness:
  "assigned_ids [(ascii ''Dune'', ascii ''Herbert'', 1965),
                 (ascii ''Foundation'', ascii ''Asimov'', 1951)] sample_store = [3, 4]
   \<and> distinct (map book_id (load_books sample_store))
   \<and> map book_id (load_books (add_all [(ascii ''Dune'', ascii ''Herbert'', 1965),
                 (ascii ''Foundation'', ascii ''Asimov'', 1951)] sample_store)) = [1, 2, 3, 4]
   \<and> distinct (map book_id (load_books (add_all [(ascii ''Dune'', ascii ''Herbert'', 1965),
                 (ascii ''Foundation'', ascii ''Asimov'', 1951)] sample_store)))"
proof -
  have a: "assigned_ids [(ascii ''Dune'', ascii ''Herbert'', 1965),
                 (ascii ''Foundation'', ascii ''Asimov'', 1951)] sample_store = [3, 4]"
    by (simp add: sample_store_def book_orwell_def book_gibson_def Book_def get_next_id_def
        add_book_def Let_def save_books_def load_books_def)
  have d: "map book_id (load_books sample_store) = [1, 2]"
    by (simp add: sample_store_def book_orwell_def book_gibson_def load_books_def)
  from add_all_ids_increasing_unique [of "[(ascii ''Dune'', ascii ''Herbert'', 1965),
                 (ascii ''Foundation'', ascii ''Asimov'', 1951)]" sample_store]
  show ?thesis unfolding a d by simp
qed

text \<open>
  C1 (as amended). In every session of add and delete operations on one store, an add
  assigns the id that is one above the largest id in the store at that moment. So after
  any session \<open>ops\<close>, while the store holds a book whose id is \<open>d\<close> or larger, the next
  add assigns an id above \<open>d\<close>: an id removed by a delete is not assigned again as long
  as a book with a larger id remains.
\<close>

theorem removed_id_not_reused_below_max:
  assumes "b \<in> set (load_books (run ops fs))" and "d \<le> book_id b"
  shows "\<exists>n. trace (ops @ [Add t a y]) fs = trace ops fs @ [Assigned n]
             \<and> n = get_next_id (run ops fs) \<and> d < n"
  using get_next_id_greater [OF assms(1)] assms(2)
  by (simp add: trace_append book_id_Book)

theorem removed_id_not_reused_below_max_witness:
  "book_gibson \<in> set (load_books (run [Delete 1] sample_store))
   \<and> 1 \<le> book_id book_gibson
   \<and> trace ([Delete 1] @ [Add (ascii ''Dune'') (ascii ''Herbert'') 1965]) sample_store
       = [Removed 1, Assigned 3]"
proof -
  have h1: "book_gibson \<in> set (load_books (run [Delete 1] sample_store))"
    by (simp add: sample_store_def delete_book_def Let_def load_books_def save_books_def
        book_orwell_def book_gibson_def)
  have h2: "1 \<le> book_id book_gibson" by (simp add: book_gibson_def)
  have t: "trace [Delete 1] sample_store = [Removed 1]"
    by (simp add: sample_store_def delete_book_def Let_def load_books_def save_books_def
        book_orwell_def book_gibson_def)
  have n: "get_next_id (run [Delete 1] sample_store) = 3"
    by (simp add: sample_store_def delete_book_def Let_def load_books_def save_books_def
        book_orwell_def book_gibson_def get_next_id_def)
  from removed_id_not_reused_below_max [OF h1 h2, of "ascii ''Dune''" "ascii ''Herbert''" 1965]
  obtain m where
    tr: "trace ([Delete 1] @ [Add (ascii ''Dune'') (ascii ''Herbert'') 1965]) sample_store =
           trace [Delete 1] sample_store @ [Assigned m]"
    and m: "m = get_next_id (run [Delete 1] sample_store)"
    by blast
  have "trace ([Delete 1] @ [Add (ascii ''Dune'') (ascii ''Herbert'') 1965]) sample_store
          = [Removed 1, Assigned 3]"
    unfolding tr m t n by simp
  with h1 h2 show ?thesis by blast
qed


text \<open>
  C1 as stated fails when the removed id was the largest: from a missing store, two
  adds assign 1 and 2, deleting 2 removes it, and the next add assigns 2 again.
\<close>

theorem removed_id_reused_counterexample:
  "trace [Add (ascii ''Dune'') (ascii ''Herbert'') 1965,
          Add (ascii ''Foundation'') (ascii ''Asimov'') 1951,
          Delete 2,
          Add (ascii ''Solaris'') (ascii ''Lem'') 1961] None
   = [Assigned 1, Assigned 2, Removed 2, Assigned 2]"
  by (simp add: add_book_def delete_book_def Let_def load_books_def save_books_def
      Book_def get_next_id_def)

end
